theory Spec2Isabelle
  imports Complex_Main "HOL-Library.AList"
begin

section \<open>Python values\<close>

text \<open>
  Python text is a sequence of Unicode code points; a code point is a natural number.
  \<open>lit\<close> turns an ASCII literal into that representation.
\<close>

type_synonym pystr = "nat list"

abbreviation lit :: "string \<Rightarrow> pystr" where
  "lit s \<equiv> map of_char s"

text \<open>
  A float is a finite number, one of the two infinities, or not-a-number. Every finite
  double is a rational number; the sign of zero is not kept.
\<close>

datatype pyfloat = Finite rat | PosInf | NegInf | NaN

text \<open>
  What \<^verbatim>\<open>json.load\<close> returns: \<^verbatim>\<open>None\<close>, a bool, an int, a float, a str, a list, or
  a dict with text keys. A dict is the list of its items in insertion order.
\<close>

datatype pyval =
    VNone
  | VBool bool
  | VInt int
  | VFloat pyfloat
  | VStr pystr
  | VList "pyval list"
  | VDict "(pystr \<times> pyval) list"

datatype py_error =
  TypeError | ValueError | OverflowError | AttributeError | FileNotFoundError | UnicodeEncodeError

text \<open>\<^verbatim>\<open>d.get(k)\<close>: the value under the key, \<^verbatim>\<open>None\<close> when the key is absent.\<close>

definition dict_get :: "(pystr \<times> pyval) list \<Rightarrow> pystr \<Rightarrow> pyval" where
  "dict_get d k = (case map_of d k of None \<Rightarrow> VNone | Some v \<Rightarrow> v)"

fun is_dict :: "pyval \<Rightarrow> bool" where
  "is_dict (VDict d) = True"
| "is_dict v = False"

section \<open>The builtin \<^verbatim>\<open>int\<close>\<close>

text \<open>
  \<^verbatim>\<open>int(text)\<close> as CPython 3.11 computes it. Code points from 127 on are first mapped to
  ASCII: Unicode white space to a blank, a Unicode decimal digit (Unicode 14.0, category
  Nd: 66 runs of ten) to its ASCII digit, anything else to a question mark. Then ASCII
  white space is skipped at both ends, one sign is read, and the rest must be decimal
  digits with single underscores between digits. More than 4300 digits are refused
  (the default of \<^verbatim>\<open>sys.get_int_max_str_digits()\<close>).
\<close>

definition ascii_space :: "nat \<Rightarrow> bool" where
  "ascii_space c = ((9 \<le> c \<and> c \<le> 13) \<or> c = 32)"

definition unicode_space :: "nat \<Rightarrow> bool" where
  "unicode_space c =
     (c = 0x85 \<or> c = 0xA0 \<or> c = 0x1680 \<or> (0x2000 \<le> c \<and> c \<le> 0x200A) \<or>
      c = 0x2028 \<or> c = 0x2029 \<or> c = 0x202F \<or> c = 0x205F \<or> c = 0x3000)"

definition decimal_bases :: "nat list" where
  "decimal_bases =
     [0x30, 0x660, 0x6F0, 0x7C0, 0x966, 0x9E6, 0xA66, 0xAE6, 0xB66, 0xBE6, 0xC66, 0xCE6,
      0xD66, 0xDE6, 0xE50, 0xED0, 0xF20, 0x1040, 0x1090, 0x17E0, 0x1810, 0x1946, 0x19D0,
      0x1A80, 0x1A90, 0x1B50, 0x1BB0, 0x1C40, 0x1C50, 0xA620, 0xA8D0, 0xA900, 0xA9D0,
      0xA9F0, 0xAA50, 0xABF0, 0xFF10, 0x104A0, 0x10D30, 0x11066, 0x110F0, 0x11136,
      0x111D0, 0x112F0, 0x11450, 0x114D0, 0x11650, 0x116C0, 0x11730, 0x118E0, 0x11950,
      0x11C50, 0x11D50, 0x11DA0, 0x16A60, 0x16AC0, 0x16B50, 0x1D7CE, 0x1D7D8, 0x1D7E2,
      0x1D7EC, 0x1D7F6, 0x1E140, 0x1E2F0, 0x1E950, 0x1FBF0]"

definition to_decimal :: "nat \<Rightarrow> nat option" where
  "to_decimal c = map_option (\<lambda>b. c - b) (find (\<lambda>b. b \<le> c \<and> c < b + 10) decimal_bases)"

definition to_ascii :: "nat \<Rightarrow> nat" where
  "to_ascii c =
     (if c < 127 then c
      else if unicode_space c then 32
      else case to_decimal c of Some d \<Rightarrow> 48 + d | None \<Rightarrow> 63)"

definition strip :: "pystr \<Rightarrow> pystr" where
  "strip s = rev (dropWhile ascii_space (rev (dropWhile ascii_space s)))"

text \<open>
  The digit values of a run of ASCII digits and underscores; the flag says whether the
  character before was a digit, which an underscore and the end both need.
\<close>

fun digits_of :: "pystr \<Rightarrow> bool \<Rightarrow> nat list option" where
  "digits_of [] after_digit = (if after_digit then Some [] else None)"
| "digits_of (c # cs) after_digit =
     (if 48 \<le> c \<and> c \<le> 57 then map_option ((#) (c - 48)) (digits_of cs True)
      else if c = 95 \<and> after_digit then digits_of cs False
      else None)"

definition int_max_str_digits :: nat where
  "int_max_str_digits = 4300"

definition int_of_text :: "pystr \<Rightarrow> py_error + int" where
  "int_of_text s =
     (let a = strip (map to_ascii s);
          negative = (a \<noteq> [] \<and> hd a = 45);
          body = (if a \<noteq> [] \<and> (hd a = 45 \<or> hd a = 43) then tl a else a)
      in case digits_of body False of
           None \<Rightarrow> Inl ValueError
         | Some ds \<Rightarrow>
             if int_max_str_digits < length ds then Inl ValueError
             else let n = int (foldl (\<lambda>acc d. 10 * acc + d) 0 ds)
                  in Inr (if negative then - n else n))"

text \<open>\<^verbatim>\<open>int(float)\<close> cuts the fraction off, towards zero.\<close>

definition int_of_float :: "rat \<Rightarrow> int" where
  "int_of_float q = (if 0 \<le> q then \<lfloor>q\<rfloor> else \<lceil>q\<rceil>)"

text \<open>
  \<^verbatim>\<open>int(value)\<close> on a value of \<^verbatim>\<open>json.load\<close>: \<^verbatim>\<open>None\<close>, a list and a dict raise
  TypeError; malformed text and not-a-number raise ValueError; an infinity raises
  OverflowError, which is no subclass of the other two.
\<close>

fun py_int :: "pyval \<Rightarrow> py_error + int" where
  "py_int VNone = Inl TypeError"
| "py_int (VBool b) = Inr (if b then 1 else 0)"
| "py_int (VInt n) = Inr n"
| "py_int (VFloat (Finite q)) = Inr (int_of_float q)"
| "py_int (VFloat PosInf) = Inl OverflowError"
| "py_int (VFloat NegInf) = Inl OverflowError"
| "py_int (VFloat NaN) = Inl ValueError"
| "py_int (VStr s) = int_of_text s"
| "py_int (VList xs) = Inl TypeError"
| "py_int (VDict d) = Inl TypeError"

section \<open>Text extraction and shape normalisation\<close>

text \<open>
  \<^verbatim>\<open>get_text\<close>. The builtin \<^verbatim>\<open>str\<close>, which renders a value that is neither \<^verbatim>\<open>None\<close>
  nor text, is the parameter \<open>str\<close>: nothing below depends on the rendering.
\<close>

fun get_text :: "(pyval \<Rightarrow> pystr) \<Rightarrow> pyval \<Rightarrow> pystr option" where
  "get_text str VNone = None"
| "get_text str (VStr s) = Some s"
| "get_text str (VDict d) =
     (case dict_get d (lit ''#text'') of
        VNone \<Rightarrow> None
      | VStr s \<Rightarrow> Some s
      | inner \<Rightarrow> Some (str inner))"
| "get_text str v = Some (str v)"

fun ensure_list :: "pyval \<Rightarrow> pyval list" where
  "ensure_list VNone = []"
| "ensure_list (VList xs) = xs"
| "ensure_list v = [v]"

text \<open>The loop of \<^verbatim>\<open>flatten_tracks\<close> over a list payload: one level of lists is opened.\<close>

fun extend_items :: "pyval list \<Rightarrow> pyval list \<Rightarrow> pyval list" where
  "extend_items items [] = items"
| "extend_items items (VList xs # rest) = extend_items (items @ xs) rest"
| "extend_items items (x # rest) = extend_items (items @ [x]) rest"

definition flatten_tracks :: "pyval \<Rightarrow> pyval list" where
  "flatten_tracks payload =
     (let items =
        (case payload of
           VList xs \<Rightarrow> extend_items [] xs
         | VDict d \<Rightarrow>
             (case dict_get d (lit ''recenttracks'') of
                VDict rt \<Rightarrow> ensure_list (dict_get rt (lit ''track''))
              | _ \<Rightarrow>
                  if map_of d (lit ''track'') \<noteq> None then ensure_list (dict_get d (lit ''track''))
                  else [payload])
         | _ \<Rightarrow> [])
      in filter is_dict items)"

section \<open>The record converter\<close>

text \<open>Truth value of an optional text: \<^verbatim>\<open>None\<close> and the empty text are false.\<close>

definition falsy :: "pystr option \<Rightarrow> bool" where
  "falsy t = (t = None \<or> t = Some [])"

text \<open>
  \<^verbatim>\<open>track_to_listen\<close>. \<open>Inr None\<close> is the skip, \<open>Inr (Some listen)\<close> the listen dict,
  \<open>Inl e\<close> an exception that leaves the function. The \<^verbatim>\<open>except\<close> clause catches
  TypeError and ValueError and nothing else. On a value without \<^verbatim>\<open>.get\<close> the first line
  raises AttributeError.
\<close>

fun track_to_listen :: "(pyval \<Rightarrow> pystr) \<Rightarrow> pyval \<Rightarrow> py_error + pyval option" where
  "track_to_listen str (VDict track_obj) =
     (let attr = dict_get track_obj (lit ''@attr'') in
      if (case attr of
            VDict a \<Rightarrow> dict_get a (lit ''nowplaying'') = VStr (lit ''true'')
          | _ \<Rightarrow> False)
      then Inr None
      else
        case dict_get track_obj (lit ''date'') of
          VDict date \<Rightarrow>
            (case map_of date (lit ''uts'') of
               None \<Rightarrow> Inr None
             | Some uts \<Rightarrow>
                 (case py_int uts of
                    Inl e \<Rightarrow> if e = TypeError \<or> e = ValueError then Inr None else Inl e
                  | Inr listened_at \<Rightarrow>
                      let track_name = get_text str (dict_get track_obj (lit ''name''));
                          artist_name = get_text str (dict_get track_obj (lit ''artist''));
                          album_name = get_text str (dict_get track_obj (lit ''album''))
                      in
                        if falsy track_name \<or> falsy artist_name then Inr None
                        else
                          let track_metadata =
                                [(lit ''track_name'', VStr (the track_name)),
                                 (lit ''artist_name'', VStr (the artist_name))];
                              track_metadata' =
                                (if \<not> falsy album_name
                                 then AList.update (lit ''release_name'') (VStr (the album_name))
                                        track_metadata
                                 else track_metadata)
                          in Inr (Some (VDict
                                [(lit ''listened_at'', VInt listened_at),
                                 (lit ''track_metadata'', VDict track_metadata')]))))
        | _ \<Rightarrow> Inr None)"
| "track_to_listen str v = Inl AttributeError"

section \<open>Serialisation\<close>

text \<open>The decimal digits of a natural number, and \<^verbatim>\<open>repr\<close> of an int.\<close>

fun digits :: "nat \<Rightarrow> pystr" where
  "digits n = (if n < 10 then [48 + n] else digits (n div 10) @ [48 + n mod 10])"

declare digits.simps [simp del]

definition repr_int :: "int \<Rightarrow> pystr" where
  "repr_int n = (if n < 0 then 45 # digits (nat (- n)) else digits (nat n))"

text \<open>
  \<^verbatim>\<open>json.dumps(..., ensure_ascii=False)\<close> with the default separators. In a text, the
  backslash (92), the double quote (34) and the control characters below 32 are escaped;
  every other code point is written as it is.
\<close>

definition hex_digit :: "nat \<Rightarrow> nat" where
  "hex_digit n = (if n < 10 then 48 + n else 87 + n)"

definition escape_char :: "nat \<Rightarrow> pystr" where
  "escape_char c =
     (if c = 92 then [92, 92]
      else if c = 34 then [92, 34]
      else if c = 8 then 92 # lit ''b''
      else if c = 12 then 92 # lit ''f''
      else if c = 10 then 92 # lit ''n''
      else if c = 13 then 92 # lit ''r''
      else if c = 9 then 92 # lit ''t''
      else if c < 32 then 92 # lit ''u00'' @ [hex_digit (c div 16), hex_digit (c mod 16)]
      else [c])"

definition encode_basestring :: "pystr \<Rightarrow> pystr" where
  "encode_basestring s = 34 # concat (map escape_char s) @ [34]"

fun join :: "pystr \<Rightarrow> pystr list \<Rightarrow> pystr" where
  "join sep [] = []"
| "join sep [x] = x"
| "join sep (x # y # ys) = x @ sep @ join sep (y # ys)"

fun json_dumps :: "(pyval \<Rightarrow> pystr) \<Rightarrow> pyval \<Rightarrow> pystr" where
  "json_dumps str VNone = lit ''null''"
| "json_dumps str (VBool b) = (if b then lit ''true'' else lit ''false'')"
| "json_dumps str (VInt n) = repr_int n"
| "json_dumps str (VFloat (Finite q)) = str (VFloat (Finite q))"
| "json_dumps str (VFloat PosInf) = lit ''Infinity''"
| "json_dumps str (VFloat NegInf) = lit ''-Infinity''"
| "json_dumps str (VFloat NaN) = lit ''NaN''"
| "json_dumps str (VStr s) = encode_basestring s"
| "json_dumps str (VList xs) = lit ''['' @ join (lit '', '') (map (json_dumps str) xs) @ lit '']''"
| "json_dumps str (VDict d) =
     lit ''{'' @
     join (lit '', '')
       (map (\<lambda>(k, v). encode_basestring k @ lit '': '' @ json_dumps str v) d) @
     lit ''}''"

text \<open>
  The output file is opened with \<^verbatim>\<open>encoding="utf-8"\<close>. Its \<^verbatim>\<open>write\<close> encodes the text at
  once, and the codec refuses the surrogate code points U+D800 to U+DFFF, which
  \<^verbatim>\<open>json.load\<close> yields for a lone \<^verbatim>\<open>\ud800\<close> escape: then \<^verbatim>\<open>write\<close> raises
  UnicodeEncodeError and nothing of that text reaches the file.
\<close>

definition surrogate :: "nat \<Rightarrow> bool" where
  "surrogate c = (0xD800 \<le> c \<and> c \<le> 0xDFFF)"

definition encodable :: "pystr \<Rightarrow> bool" where
  "encodable s = list_all (\<lambda>c. \<not> surrogate c) s"

text \<open>
  The loop of \<^verbatim>\<open>write_listens_jsonl\<close>: \<open>out\<close> is the text written so far and
  \<open>written\<close> the counter. An exception of the converter or of \<^verbatim>\<open>out.write\<close> ends the
  loop; what was written before stays in the file.
\<close>

fun write_loop ::
  "(pyval \<Rightarrow> pystr) \<Rightarrow> pyval list \<Rightarrow> pystr \<Rightarrow> nat \<Rightarrow> py_error option \<times> pystr \<times> nat" where
  "write_loop str [] out written = (None, out, written)"
| "write_loop str (t # ts) out written =
     (case track_to_listen str t of
        Inl e \<Rightarrow> (Some e, out, written)
      | Inr None \<Rightarrow> write_loop str ts out written
      | Inr (Some listen) \<Rightarrow>
          (let line = json_dumps str listen @ [10] in
           if encodable line then write_loop str ts (out @ line) (written + 1)
           else (Some UnicodeEncodeError, out, written)))"

section \<open>Files, the archive and the entry point\<close>

text \<open>
  A file holds text or is a ZIP archive, the list of its members: name, compression
  method and the data the member decompresses to. A text file is the text written to it,
  which the UTF-8 codec has accepted; the bytes it is encoded to, and the DEFLATE codec of
  the archive, are not modelled: a member is the content of the file that was added. The
  modification time that a member carries is left out, and so is a disk that fails.
\<close>

datatype compression = ZIP_STORED | ZIP_DEFLATED

datatype disk_file = Text pystr | Zip "(pystr \<times> compression \<times> disk_file) list"

record world =
  files :: "pystr \<rightharpoonup> disk_file"
  stdout :: pystr

definition INPUT_FILE :: pystr where
  "INPUT_FILE = lit ''scrobbles.json''"

definition OUTPUT_JSONL :: pystr where
  "OUTPUT_JSONL = lit ''listenbrainz_listens.jsonl''"

definition OUTPUT_ZIP :: pystr where
  "OUTPUT_ZIP = lit ''listenbrainz_import.zip''"

text \<open>\<^verbatim>\<open>print\<close> of one line on the standard output.\<close>

definition print :: "pystr \<Rightarrow> world \<Rightarrow> world" where
  "print line w = w\<lparr>stdout := stdout w @ line @ [10]\<rparr>"

text \<open>
  \<^verbatim>\<open>write_listens_jsonl\<close>. The parser \<^verbatim>\<open>json.load\<close> is the parameter \<open>json_load\<close>,
  \<open>None\<close> where it raises (JSONDecodeError and UnicodeDecodeError are ValueErrors); an
  archive never parses. The input is read and closed before the output is opened, which
  empties that file. A failure to open the output for writing is not modelled.
\<close>

definition write_listens_jsonl ::
  "(pyval \<Rightarrow> pystr) \<Rightarrow> (pystr \<Rightarrow> pyval option) \<Rightarrow> pystr \<Rightarrow> pystr \<Rightarrow> world \<Rightarrow>
     (py_error + nat) \<times> world" where
  "write_listens_jsonl str json_load input_path output_path w =
     (case files w input_path of
        None \<Rightarrow> (Inl FileNotFoundError, w)
      | Some (Zip members) \<Rightarrow> (Inl ValueError, w)
      | Some (Text s) \<Rightarrow>
          (case json_load s of
             None \<Rightarrow> (Inl ValueError, w)
           | Some raw \<Rightarrow>
               (let tracks = flatten_tracks raw in
                case write_loop str tracks [] 0 of
                  (err, out, written) \<Rightarrow>
                    (let w' = w\<lparr>files := (files w)(output_path \<mapsto> Text out)\<rparr> in
                     case err of
                       Some e \<Rightarrow> (Inl e, w')
                     | None \<Rightarrow> (Inr written, w')))))"

text \<open>
  \<^verbatim>\<open>make_import_zip\<close>. Opening the archive with mode \<^verbatim>\<open>"w"\<close> leaves a new, empty archive
  at \<open>zip_path\<close>; \<^verbatim>\<open>zf.write\<close> then adds the file at \<open>jsonl_path\<close> under the fixed name.
\<close>

definition make_import_zip :: "pystr \<Rightarrow> pystr \<Rightarrow> world \<Rightarrow> py_error option \<times> world" where
  "make_import_zip jsonl_path zip_path w =
     (let w1 = w\<lparr>files := (files w)(zip_path \<mapsto> Zip [])\<rparr> in
      case files w1 jsonl_path of
        None \<Rightarrow> (Some FileNotFoundError, w1)
      | Some content \<Rightarrow>
          (None, w1\<lparr>files := (files w1)(zip_path \<mapsto>
                    Zip [(lit ''listens.jsonl'', ZIP_DEFLATED, content)])\<rparr>))"

definition main ::
  "(pyval \<Rightarrow> pystr) \<Rightarrow> (pystr \<Rightarrow> pyval option) \<Rightarrow> world \<Rightarrow> py_error option \<times> world" where
  "main str json_load w =
     (case write_listens_jsonl str json_load INPUT_FILE OUTPUT_JSONL w of
        (Inl e, w1) \<Rightarrow> (Some e, w1)
      | (Inr written, w1) \<Rightarrow>
          (let w2 = print (lit ''Listens written: '' @ repr_int (int written)) w1 in
           case make_import_zip OUTPUT_JSONL OUTPUT_ZIP w2 of
             (Some e, w3) \<Rightarrow> (Some e, w3)
           | (None, w3) \<Rightarrow> (None, print (lit ''Created: '' @ OUTPUT_ZIP) w3)))"

section \<open>Definitions for the statements\<close>

text \<open>
  The listens a run of the loop accepts, in the order of their tracks: a track that is
  skipped or on which the converter raises contributes none.
\<close>

definition accepted_listens :: "(pyval \<Rightarrow> pystr) \<Rightarrow> pyval list \<Rightarrow> pyval list" where
  "accepted_listens str ts =
     List.map_filter (\<lambda>t. case track_to_listen str t of Inl e \<Rightarrow> None | Inr r \<Rightarrow> r) ts"

text \<open>The text values under \<^verbatim>\<open>track_metadata\<close> of a listen, in the order of the dict.\<close>

fun text_values :: "(pystr \<times> pyval) list \<Rightarrow> pystr list" where
  "text_values [] = []"
| "text_values ((k, VStr s) # kvs) = s # text_values kvs"
| "text_values (kv # kvs) = text_values kvs"

definition listen_texts :: "pyval \<Rightarrow> pystr list" where
  "listen_texts listen =
     (case listen of
        VDict items \<Rightarrow>
          (case dict_get items (lit ''track_metadata'') of
             VDict md \<Rightarrow> text_values md
           | _ \<Rightarrow> [])
      | _ \<Rightarrow> [])"

text \<open>An ASCII literal between double quotes.\<close>

abbreviation quoted :: "string \<Rightarrow> pystr" where
  "quoted s \<equiv> 34 # lit s @ [34]"

subsection \<open>Example inputs\<close>

text \<open>
  The builtin \<^verbatim>\<open>str\<close> on \<^verbatim>\<open>None\<close>, a bool and an int, as an instance of the parameter for
  the examples. The examples render no other value; there this instance returns the empty
  text, which \<^verbatim>\<open>str\<close> never does.
\<close>

definition str_of_atom :: "pyval \<Rightarrow> pystr" where
  "str_of_atom v =
     (case v of
        VNone \<Rightarrow> lit ''None''
      | VBool b \<Rightarrow> (if b then lit ''True'' else lit ''False'')
      | VInt n \<Rightarrow> repr_int n
      | _ \<Rightarrow> [])"

text \<open>The two tracks and the payload of the round-trip scenario.\<close>

definition song_a :: pyval where
  "song_a = VDict
     [(lit ''name'', VStr (lit ''Song A'')),
      (lit ''artist'', VStr (lit ''Artist A'')),
      (lit ''album'', VDict [(lit ''#text'', VStr (lit ''Album A''))]),
      (lit ''date'', VDict [(lit ''uts'', VStr (lit ''1000''))])]"

definition song_b :: pyval where
  "song_b = VDict
     [(lit ''name'', VStr (lit ''Song B'')),
      (lit ''artist'', VStr (lit ''Artist B'')),
      (lit ''date'', VDict [(lit ''uts'', VStr (lit ''2000''))]),
      (lit ''@attr'', VDict [(lit ''nowplaying'', VStr (lit ''true''))])]"

definition round_trip_payload :: pyval where
  "round_trip_payload =
     VDict [(lit ''recenttracks'', VDict [(lit ''track'', VList [song_a, song_b])])]"

definition round_trip_document :: pystr where
  "round_trip_document =
     lit ''{'' @ quoted ''recenttracks'' @ lit '': {'' @ quoted ''track'' @ lit '': [{'' @
     quoted ''name'' @ lit '':'' @ quoted ''Song A'' @ lit '','' @
     quoted ''artist'' @ lit '':'' @ quoted ''Artist A'' @ lit '','' @
     quoted ''album'' @ lit '':{'' @ quoted ''#text'' @ lit '':'' @ quoted ''Album A'' @ lit ''},'' @
     quoted ''date'' @ lit '':{'' @ quoted ''uts'' @ lit '':'' @ quoted ''1000'' @ lit ''}},{'' @
     quoted ''name'' @ lit '':'' @ quoted ''Song B'' @ lit '','' @
     quoted ''artist'' @ lit '':'' @ quoted ''Artist B'' @ lit '','' @
     quoted ''date'' @ lit '':{'' @ quoted ''uts'' @ lit '':'' @ quoted ''2000'' @ lit ''},'' @
     quoted ''@attr'' @ lit '':{'' @ quoted ''nowplaying'' @ lit '':'' @ quoted ''true'' @
     lit ''}}]}}''"

text \<open>
  A payload with text outside ASCII: the name is \<^verbatim>\<open>Caf\<close> followed by U+00E9 and a line
  feed, the artist \<^verbatim>\<open>Bj\<close>, U+00F6, \<^verbatim>\<open>rk\<close>.
\<close>

definition accent_track :: pyval where
  "accent_track = VDict
     [(lit ''name'', VStr (lit ''Caf'' @ [233, 10])),
      (lit ''artist'', VStr (lit ''Bj'' @ [246] @ lit ''rk'')),
      (lit ''date'', VDict [(lit ''uts'', VInt 1000)])]"

definition accent_payload :: pyval where
  "accent_payload = VList [accent_track]"

definition accent_document :: pystr where
  "accent_document =
     lit ''[{'' @ quoted ''name'' @ lit '':'' @ [34] @ lit ''Caf'' @ [233, 92, 110, 34] @
     lit '','' @ quoted ''artist'' @ lit '':'' @ [34] @ lit ''Bj'' @ [246] @ lit ''rk'' @ [34] @
     lit '','' @ quoted ''date'' @ lit '':{'' @ quoted ''uts'' @ lit '':1000}}]''"

text \<open>
  A payload of two tracks, Song A and a track whose name is the lone surrogate U+D800,
  which the document writes as the escape \<^verbatim>\<open>\ud800\<close>.
\<close>

definition surrogate_track :: pyval where
  "surrogate_track = VDict
     [(lit ''name'', VStr [0xD800]),
      (lit ''artist'', VStr (lit ''Artist E'')),
      (lit ''date'', VDict [(lit ''uts'', VStr (lit ''3000''))])]"

definition surrogate_payload :: pyval where
  "surrogate_payload = VList [song_a, surrogate_track]"

definition surrogate_document :: pystr where
  "surrogate_document =
     lit ''[{'' @
     quoted ''name'' @ lit '':'' @ quoted ''Song A'' @ lit '','' @
     quoted ''artist'' @ lit '':'' @ quoted ''Artist A'' @ lit '','' @
     quoted ''album'' @ lit '':{'' @ quoted ''#text'' @ lit '':'' @ quoted ''Album A'' @ lit ''},'' @
     quoted ''date'' @ lit '':{'' @ quoted ''uts'' @ lit '':'' @ quoted ''1000'' @ lit ''}},{'' @
     quoted ''name'' @ lit '':'' @ [34, 92] @ lit ''ud800'' @ [34] @ lit '','' @
     quoted ''artist'' @ lit '':'' @ quoted ''Artist E'' @ lit '','' @
     quoted ''date'' @ lit '':{'' @ quoted ''uts'' @ lit '':'' @ quoted ''3000'' @ lit ''}}]''"

text \<open>
  The parser on the three documents of the examples, as an instance of the parameter; it
  rejects every other text.
\<close>

definition json_load_example :: "pystr \<Rightarrow> pyval option" where
  "json_load_example s =
     (if s = round_trip_document then Some round_trip_payload
      else if s = accent_document then Some accent_payload
      else if s = surrogate_document then Some surrogate_payload
      else None)"

definition round_trip_world :: world where
  "round_trip_world = \<lparr>files = [INPUT_FILE \<mapsto> Text round_trip_document], stdout = []\<rparr>"

definition accent_world :: world where
  "accent_world = \<lparr>files = [INPUT_FILE \<mapsto> Text accent_document], stdout = []\<rparr>"

definition surrogate_world :: world where
  "surrogate_world = \<lparr>files = [INPUT_FILE \<mapsto> Text surrogate_document], stdout = []\<rparr>"

text \<open>
  The float that \<^verbatim>\<open>1000.9\<close> parses to, exactly, and tracks whose \<^verbatim>\<open>uts\<close> is a float: this
  one, this one in a track marked as now playing, and the infinity that \<^verbatim>\<open>1e999\<close> parses
  to.
\<close>

definition float_1000_9 :: rat where
  "float_1000_9 = 8804009505927987 / 8796093022208"

definition float_uts_track :: "(pystr \<times> pyval) list" where
  "float_uts_track =
     [(lit ''name'', VStr (lit ''Song C'')),
      (lit ''artist'', VStr (lit ''Artist C'')),
      (lit ''date'', VDict [(lit ''uts'', VFloat (Finite float_1000_9))])]"

definition now_playing_float_track :: "(pystr \<times> pyval) list" where
  "now_playing_float_track =
     float_uts_track @ [(lit ''@attr'', VDict [(lit ''nowplaying'', VStr (lit ''true''))])]"

definition infinite_uts_track :: "(pystr \<times> pyval) list" where
  "infinite_uts_track =
     [(lit ''name'', VStr (lit ''Song D'')),
      (lit ''artist'', VStr (lit ''Artist D'')),
      (lit ''date'', VDict [(lit ''uts'', VFloat PosInf)])]"

text \<open>A track whose now-playing flag is the boolean, not the text.\<close>

definition boolean_flag_track :: "(pystr \<times> pyval) list" where
  "boolean_flag_track =
     [(lit ''name'', VStr (lit ''Song B'')),
      (lit ''artist'', VStr (lit ''Artist B'')),
      (lit ''date'', VDict [(lit ''uts'', VStr (lit ''2000''))]),
      (lit ''@attr'', VDict [(lit ''nowplaying'', VBool True)])]"

section \<open>Auxiliary facts\<close>

lemma dict_get_eq_VDict: "dict_get d k = VDict a \<longleftrightarrow> map_of d k = Some (VDict a)"
  by (simp add: dict_get_def split: option.splits)

lemma dict_get_delete: "k' \<noteq> k \<Longrightarrow> dict_get (AList.delete k d) k' = dict_get d k'"
  by (simp add: dict_get_def delete_conv')

lemma dict_get_delete_same: "dict_get (AList.delete k d) k = VNone"
  by (simp add: dict_get_def delete_conv')

lemma paths_distinct:
  "INPUT_FILE \<noteq> OUTPUT_JSONL" "INPUT_FILE \<noteq> OUTPUT_ZIP" "OUTPUT_JSONL \<noteq> OUTPUT_ZIP"
  by (simp_all add: INPUT_FILE_def OUTPUT_JSONL_def OUTPUT_ZIP_def)

subsection \<open>The converter\<close>

lemma track_to_listen_dict: "track_to_listen str t = Inr r \<Longrightarrow> \<exists>d. t = VDict d"
  by (cases t) simp_all

lemma track_to_listen_Some:
  assumes "track_to_listen str (VDict t) = Inr (Some listen)"
  shows "\<exists>date uts n tn an.
      \<not> (\<exists>a. map_of t (lit ''@attr'') = Some (VDict a) \<and>
               map_of a (lit ''nowplaying'') = Some (VStr (lit ''true''))) \<and>
      map_of t (lit ''date'') = Some (VDict date) \<and>
      map_of date (lit ''uts'') = Some uts \<and> py_int uts = Inr n \<and>
      get_text str (dict_get t (lit ''name'')) = Some tn \<and> tn \<noteq> [] \<and>
      get_text str (dict_get t (lit ''artist'')) = Some an \<and> an \<noteq> [] \<and>
      listen = VDict
        [(lit ''listened_at'', VInt n),
         (lit ''track_metadata'', VDict
            ([(lit ''track_name'', VStr tn), (lit ''artist_name'', VStr an)] @
             (case get_text str (dict_get t (lit ''album'')) of
                None \<Rightarrow> []
              | Some al \<Rightarrow> if al = [] then [] else [(lit ''release_name'', VStr al)])))]"
proof -
  let ?tn = "get_text str (dict_get t (lit ''name''))"
  let ?an = "get_text str (dict_get t (lit ''artist''))"
  let ?al = "get_text str (dict_get t (lit ''album''))"
  from assms have np:
    "\<not> (\<exists>a. map_of t (lit ''@attr'') = Some (VDict a) \<and>
             map_of a (lit ''nowplaying'') = Some (VStr (lit ''true'')))"
    by (auto simp: dict_get_def)
  from assms obtain date where d: "dict_get t (lit ''date'') = VDict date"
    by (cases "dict_get t (lit ''date'')") (simp_all add: Let_def split: if_splits)
  from assms d obtain uts where u: "map_of date (lit ''uts'') = Some uts"
    by (cases "map_of date (lit ''uts'')") (simp_all add: Let_def split: if_splits)
  from assms d u obtain n where n: "py_int uts = Inr n"
    by (cases "py_int uts") (simp_all add: Let_def split: if_splits)
  from assms d u n have f: "\<not> falsy ?tn" "\<not> falsy ?an"
    by (simp_all add: Let_def split: if_splits)
  then obtain tn an where t: "?tn = Some tn" "tn \<noteq> []" "?an = Some an" "an \<noteq> []"
    by (auto simp: falsy_def)
  from assms d u n f t have "listen = VDict
        [(lit ''listened_at'', VInt n),
         (lit ''track_metadata'', VDict
            ([(lit ''track_name'', VStr tn), (lit ''artist_name'', VStr an)] @
             (case ?al of
                None \<Rightarrow> []
              | Some al \<Rightarrow> if al = [] then [] else [(lit ''release_name'', VStr al)])))]"
    by (auto simp add: Let_def falsy_def split: if_splits option.splits)
  with np d u n t show ?thesis
    by (simp add: dict_get_eq_VDict)
qed

lemma eligible_track_converts:
  assumes "\<not> (\<exists>a. map_of t (lit ''@attr'') = Some (VDict a) \<and>
               map_of a (lit ''nowplaying'') = Some (VStr (lit ''true'')))"
    and "map_of t (lit ''date'') = Some (VDict date)"
    and "map_of date (lit ''uts'') = Some uts" and "py_int uts = Inr n"
    and "get_text str (dict_get t (lit ''name'')) = Some tn" and "tn \<noteq> []"
    and "get_text str (dict_get t (lit ''artist'')) = Some an" and "an \<noteq> []"
  shows "track_to_listen str (VDict t) =
      Inr (Some (VDict
        [(lit ''listened_at'', VInt n),
         (lit ''track_metadata'', VDict
            ([(lit ''track_name'', VStr tn), (lit ''artist_name'', VStr an)] @
             (case get_text str (dict_get t (lit ''album'')) of
                None \<Rightarrow> []
              | Some al \<Rightarrow> if al = [] then [] else [(lit ''release_name'', VStr al)])))]))"
proof -
  have np: "\<not> (case dict_get t (lit ''@attr'') of
            VDict a \<Rightarrow> dict_get a (lit ''nowplaying'') = VStr (lit ''true'')
          | _ \<Rightarrow> False)"
    using assms(1) by (auto simp: dict_get_def split: option.splits pyval.splits)
  have d: "dict_get t (lit ''date'') = VDict date"
    using assms(2) by (simp add: dict_get_def)
  show ?thesis
    unfolding track_to_listen.simps Let_def d
    using np assms(3-8)
    by (simp add: falsy_def split: option.splits)
qed

text \<open>Where the converter skips, and the only exception that leaves it on a dict.\<close>

lemma skip_without_uts:
  assumes "\<forall>date. map_of t (lit ''date'') = Some (VDict date) \<longrightarrow> map_of date (lit ''uts'') = None"
  shows "track_to_listen str (VDict t) = Inr None"
proof (cases "dict_get t (lit ''date'')")
  case (VDict date)
  with assms have "map_of date (lit ''uts'') = None"
    by (simp add: dict_get_eq_VDict)
  with VDict show ?thesis by (simp add: Let_def)
qed (simp_all add: Let_def)

lemma skip_on_type_or_value_error:
  assumes "map_of t (lit ''date'') = Some (VDict date)"
    and "map_of date (lit ''uts'') = Some uts"
    and "py_int uts = Inl TypeError \<or> py_int uts = Inl ValueError"
  shows "track_to_listen str (VDict t) = Inr None"
proof -
  have d: "dict_get t (lit ''date'') = VDict date"
    using assms(1) by (simp add: dict_get_def)
  show ?thesis
    unfolding track_to_listen.simps Let_def d
    using assms(2,3) by auto
qed

lemma skip_without_name_or_artist:
  assumes "py_int uts = Inr n"
    and "map_of t (lit ''date'') = Some (VDict date)"
    and "map_of date (lit ''uts'') = Some uts"
    and "falsy (get_text str (dict_get t (lit ''name''))) \<or>
         falsy (get_text str (dict_get t (lit ''artist'')))"
  shows "track_to_listen str (VDict t) = Inr None"
proof -
  have d: "dict_get t (lit ''date'') = VDict date"
    using assms(2) by (simp add: dict_get_def)
  show ?thesis
    unfolding track_to_listen.simps Let_def d
    using assms(1,3,4) by auto
qed

lemma track_to_listen_raises:
  assumes "track_to_listen str (VDict t) = Inl e"
  shows "e = OverflowError \<and>
         (\<exists>date uts. map_of t (lit ''date'') = Some (VDict date) \<and>
            map_of date (lit ''uts'') = Some uts \<and> py_int uts = Inl OverflowError)"
proof -
  from assms obtain date where d: "dict_get t (lit ''date'') = VDict date"
    by (cases "dict_get t (lit ''date'')") (simp_all add: Let_def split: if_splits)
  from assms d obtain uts where u: "map_of date (lit ''uts'') = Some uts"
    by (cases "map_of date (lit ''uts'')") (simp_all add: Let_def split: if_splits)
  from assms d u have "py_int uts = Inl e \<and> e \<noteq> TypeError \<and> e \<noteq> ValueError"
    by (cases "py_int uts") (simp_all add: Let_def split: if_splits)
  moreover have "py_int uts = Inl e \<Longrightarrow> e = TypeError \<or> e = ValueError \<or> e = OverflowError"
    by (cases e) (auto simp: int_of_text_def Let_def elim!: py_int.elims split: option.splits if_splits)
  ultimately have "e = OverflowError" "py_int uts = Inl OverflowError" by auto
  with d u show ?thesis by (auto simp: dict_get_eq_VDict)
qed

lemma flatten_tracks_only_dicts: "x \<in> set (flatten_tracks payload) \<Longrightarrow> is_dict x"
  by (simp add: flatten_tracks_def)

lemma flatten_tracks_scalar:
  "flatten_tracks VNone = []" "flatten_tracks (VBool b) = []" "flatten_tracks (VInt n) = []"
  "flatten_tracks (VFloat f) = []" "flatten_tracks (VStr s) = []"
  by (simp_all add: flatten_tracks_def)

lemma int_of_float_towards_zero:
  "\<bar>of_int (int_of_float q)\<bar> \<le> \<bar>q\<bar> \<and> \<bar>q - of_int (int_of_float q)\<bar> < 1"
proof (cases "0 \<le> q")
  case True
  then have eq: "int_of_float q = \<lfloor>q\<rfloor>" by (simp add: int_of_float_def)
  from True have "0 \<le> \<lfloor>q\<rfloor>" by simp
  then have "(0::rat) \<le> of_int \<lfloor>q\<rfloor>" by simp
  moreover have "of_int \<lfloor>q\<rfloor> \<le> q" "q < of_int \<lfloor>q\<rfloor> + 1" by linarith+
  ultimately show ?thesis unfolding eq using True by linarith
next
  case False
  then have eq: "int_of_float q = \<lceil>q\<rceil>" by (simp add: int_of_float_def)
  from False have "\<lceil>q\<rceil> \<le> 0" by simp
  then have "of_int \<lceil>q\<rceil> \<le> (0::rat)" by simp
  moreover have "q \<le> of_int \<lceil>q\<rceil>" "of_int \<lceil>q\<rceil> < q + 1" by linarith+
  ultimately show ?thesis unfolding eq using False by linarith
qed

subsection \<open>The serialiser\<close>

lemma digits_range: "c \<in> set (digits n) \<Longrightarrow> 48 \<le> c \<and> c \<le> 57"
proof (induction n arbitrary: c rule: digits.induct)
  case (1 n)
  show ?case
  proof (cases "n < 10")
    case True
    with "1.prems" show ?thesis by (simp add: digits.simps [of n])
  next
    case False
    with "1.prems" have "c \<in> set (digits (n div 10)) \<or> c = 48 + n mod 10"
      by (auto simp: digits.simps [of n])
    then show ?thesis
    proof
      assume "c \<in> set (digits (n div 10))"
      with "1.IH" False show ?thesis by simp
    next
      assume "c = 48 + n mod 10"
      moreover have "n mod 10 < 10" by simp
      ultimately show ?thesis by linarith
    qed
  qed
qed

lemma repr_int_range: "c \<in> set (repr_int n) \<Longrightarrow> c = 45 \<or> (48 \<le> c \<and> c \<le> 57)"
  by (auto simp: repr_int_def dest: digits_range split: if_splits)

lemma repr_int_no_newline: "10 \<notin> set (repr_int n)"
  using repr_int_range [of 10 n] by auto

lemma repr_int_filter: "filter (\<lambda>x. 128 \<le> x) (repr_int n) = []"
  by (auto simp: filter_empty_conv dest: repr_int_range)

lemma escape_char_ascii: "c < 128 \<Longrightarrow> x \<in> set (escape_char c) \<Longrightarrow> 32 \<le> x \<and> x < 128"
  by (auto simp: escape_char_def hex_digit_def split: if_splits)

lemma escape_char_keep: "128 \<le> c \<Longrightarrow> escape_char c = [c]"
  by (simp add: escape_char_def)

lemma escape_char_no_newline: "10 \<notin> set (escape_char c)"
  by (cases "c < 128") (auto simp: escape_char_keep dest: escape_char_ascii)

lemma escape_char_filter:
  "filter (\<lambda>x. 128 \<le> x) (escape_char c) = filter (\<lambda>x. 128 \<le> x) [c]"
proof (cases "c < 128")
  case True
  then have "\<forall>x\<in>set (escape_char c). \<not> 128 \<le> x"
    by (auto dest: escape_char_ascii)
  then have "filter (\<lambda>x. 128 \<le> x) (escape_char c) = []"
    by (simp add: filter_empty_conv)
  with True show ?thesis by simp
next
  case False
  then show ?thesis by (simp add: escape_char_keep)
qed

lemma encode_basestring_no_newline: "10 \<notin> set (encode_basestring s)"
  by (simp add: encode_basestring_def escape_char_no_newline)

lemma encode_basestring_filter:
  "filter (\<lambda>x. 128 \<le> x) (encode_basestring s) = filter (\<lambda>x. 128 \<le> x) s"
  by (induction s) (simp_all add: encode_basestring_def escape_char_filter)

lemma write_loop_returns:
  "\<forall>t\<in>set ts. \<exists>r. track_to_listen str t = Inr r \<Longrightarrow>
   \<forall>l\<in>set (accepted_listens str ts). encodable (json_dumps str l @ [10]) \<Longrightarrow>
   write_loop str ts out written =
     (None, out @ concat (map (\<lambda>l. json_dumps str l @ [10]) (accepted_listens str ts)),
      written + length (accepted_listens str ts))"
proof (induction ts arbitrary: out written)
  case Nil
  show ?case by (simp add: accepted_listens_def)
next
  case (Cons t ts)
  from Cons.prems(1) obtain r where r: "track_to_listen str t = Inr r" by auto
  from Cons.prems(1) have rest: "\<forall>t\<in>set ts. \<exists>r. track_to_listen str t = Inr r" by simp
  show ?case
  proof (cases r)
    case None
    with r Cons.prems(2)
    have enc: "\<forall>l\<in>set (accepted_listens str ts). encodable (json_dumps str l @ [10])"
      by (simp add: accepted_listens_def)
    from None r Cons.IH [OF rest enc] show ?thesis
      by (simp add: accepted_listens_def)
  next
    case (Some l)
    with r Cons.prems(2)
    have enc: "\<forall>l\<in>set (accepted_listens str ts). encodable (json_dumps str l @ [10])"
      and line: "encodable (json_dumps str l @ [10])"
      by (simp_all add: accepted_listens_def)
    from Some r line Cons.IH [OF rest enc, of "out @ json_dumps str l @ [10]" "written + 1"]
    show ?thesis
      by (simp add: accepted_listens_def)
  qed
qed

lemma accepted_listens_origin:
  assumes "l \<in> set (accepted_listens str ts)"
  shows "\<exists>d. VDict d \<in> set ts \<and> track_to_listen str (VDict d) = Inr (Some l)"
proof -
  from assms have "\<exists>t\<in>set ts. track_to_listen str t = Inr (Some l)"
    by (induction ts) (auto simp: accepted_listens_def split: sum.splits option.splits)
  then obtain t where t: "t \<in> set ts" "track_to_listen str t = Inr (Some l)"
    by blast
  from t(2) track_to_listen_dict obtain d where "t = VDict d" by blast
  with t show ?thesis by blast
qed

lemma listen_line:
  assumes "track_to_listen str (VDict d) = Inr (Some l)"
  shows "10 \<notin> set (json_dumps str l) \<and>
         filter (\<lambda>c. 128 \<le> c) (json_dumps str l) =
           filter (\<lambda>c. 128 \<le> c) (concat (listen_texts l))"
proof -
  from track_to_listen_Some [OF assms] obtain n tn an where
    l: "l = VDict
        [(lit ''listened_at'', VInt n),
         (lit ''track_metadata'', VDict
            ([(lit ''track_name'', VStr tn), (lit ''artist_name'', VStr an)] @
             (case get_text str (dict_get d (lit ''album'')) of
                None \<Rightarrow> []
              | Some al \<Rightarrow> if al = [] then [] else [(lit ''release_name'', VStr al)])))]"
    by blast
  show ?thesis
    unfolding l
    by (cases "get_text str (dict_get d (lit ''album''))")
      (simp_all add: listen_texts_def dict_get_def repr_int_no_newline repr_int_filter
         encode_basestring_no_newline encode_basestring_filter)
qed

lemma encodable_filter: "encodable s = encodable (filter (\<lambda>c. 128 \<le> c) s)"
  by (induction s) (auto simp: encodable_def surrogate_def)

lemma listen_line_encodable:
  assumes "track_to_listen str (VDict d) = Inr (Some l)"
  shows "encodable (json_dumps str l @ [10]) = encodable (concat (listen_texts l))"
proof -
  have "encodable (json_dumps str l @ [10]) = encodable (json_dumps str l)"
    by (simp add: encodable_def surrogate_def)
  also have "\<dots> = encodable (filter (\<lambda>c. 128 \<le> c) (json_dumps str l))"
    by (rule encodable_filter)
  also have "\<dots> = encodable (filter (\<lambda>c. 128 \<le> c) (concat (listen_texts l)))"
    using listen_line [OF assms] by simp
  also have "\<dots> = encodable (concat (listen_texts l))"
    by (rule encodable_filter [symmetric])
  finally show ?thesis .
qed

lemma accepted_lines_encodable:
  assumes "\<forall>l\<in>set (accepted_listens str ts). encodable (concat (listen_texts l))"
  shows "\<forall>l\<in>set (accepted_listens str ts). encodable (json_dumps str l @ [10])"
proof
  fix l
  assume l: "l \<in> set (accepted_listens str ts)"
  from accepted_listens_origin [OF l]
  obtain d where "track_to_listen str (VDict d) = Inr (Some l)" by blast
  from listen_line_encodable [OF this] assms l
  show "encodable (json_dumps str l @ [10])" by simp
qed

lemma write_listens_jsonl_returns:
  assumes "files w input_path = Some (Text s)" and "json_load s = Some raw"
    and "\<forall>t\<in>set (flatten_tracks raw). \<exists>r. track_to_listen str t = Inr r"
    and "\<forall>l\<in>set (accepted_listens str (flatten_tracks raw)). encodable (concat (listen_texts l))"
  shows "write_listens_jsonl str json_load input_path output_path w =
      (Inr (length (accepted_listens str (flatten_tracks raw))),
       w\<lparr>files := (files w)(output_path \<mapsto>
           Text (concat (map (\<lambda>l. json_dumps str l @ [10])
                   (accepted_listens str (flatten_tracks raw)))))\<rparr>)"
  using assms(1,2)
    write_loop_returns [OF assms(3) accepted_lines_encodable [OF assms(4)], of "[]" 0]
  by (simp add: write_listens_jsonl_def)

subsection \<open>The entry point\<close>

lemma main_returns:
  assumes "files w INPUT_FILE = Some (Text s)" and "json_load s = Some raw"
    and "write_loop str (flatten_tracks raw) [] 0 = (None, blob, n)"
  shows "\<exists>w'. main str json_load w = (None, w') \<and>
      files w' OUTPUT_JSONL = Some (Text blob) \<and>
      files w' OUTPUT_ZIP = Some (Zip [(lit ''listens.jsonl'', ZIP_DEFLATED, Text blob)]) \<and>
      stdout w' = stdout w @ lit ''Listens written: '' @ repr_int (int n) @ [10] @
                    lit ''Created: '' @ OUTPUT_ZIP @ [10]"
  using assms paths_distinct
  by (simp add: main_def write_listens_jsonl_def make_import_zip_def print_def Let_def)

lemma main_twice:
  "fst (main str json_load (snd (main str json_load w))) = fst (main str json_load w) \<and>
   files (snd (main str json_load (snd (main str json_load w)))) OUTPUT_JSONL =
     files (snd (main str json_load w)) OUTPUT_JSONL"
  using paths_distinct
  by (auto simp add: main_def write_listens_jsonl_def make_import_zip_def print_def Let_def
      split: option.splits disk_file.splits prod.splits sum.splits)

lemma main_completes_only_if:
  assumes "main str json_load w = (None, w')"
  shows "\<exists>s raw blob n. files w INPUT_FILE = Some (Text s) \<and> json_load s = Some raw \<and>
      write_loop str (flatten_tracks raw) [] 0 = (None, blob, n)"
  using assms
  by (auto simp add: main_def write_listens_jsonl_def make_import_zip_def print_def Let_def
      split: option.splits disk_file.splits prod.splits sum.splits)

subsection \<open>The examples, evaluated\<close>

lemma flatten_round_trip: "flatten_tracks round_trip_payload = [song_a, song_b]"
  by (simp add: flatten_tracks_def round_trip_payload_def dict_get_def song_a_def song_b_def)

lemma song_a_listen:
  "track_to_listen str song_a = Inr (Some (VDict
     [(lit ''listened_at'', VInt 1000),
      (lit ''track_metadata'', VDict
         [(lit ''track_name'', VStr (lit ''Song A'')),
          (lit ''artist_name'', VStr (lit ''Artist A'')),
          (lit ''release_name'', VStr (lit ''Album A''))])]))"
  unfolding song_a_def by code_simp

lemma song_b_skipped: "track_to_listen str song_b = Inr None"
  unfolding song_b_def by code_simp

lemma song_a_line:
  "json_dumps str (VDict
     [(lit ''listened_at'', VInt 1000),
      (lit ''track_metadata'', VDict
         [(lit ''track_name'', VStr (lit ''Song A'')),
          (lit ''artist_name'', VStr (lit ''Artist A'')),
          (lit ''release_name'', VStr (lit ''Album A''))])]) =
   lit ''{'' @ quoted ''listened_at'' @ lit '': 1000, '' @ quoted ''track_metadata'' @
   lit '': {'' @ quoted ''track_name'' @ lit '': '' @ quoted ''Song A'' @ lit '', '' @
   quoted ''artist_name'' @ lit '': '' @ quoted ''Artist A'' @ lit '', '' @
   quoted ''release_name'' @ lit '': '' @ quoted ''Album A'' @ lit ''}}''"
  by code_simp

lemma song_a_line_encodable:
  "encodable (json_dumps str (VDict
     [(lit ''listened_at'', VInt 1000),
      (lit ''track_metadata'', VDict
         [(lit ''track_name'', VStr (lit ''Song A'')),
          (lit ''artist_name'', VStr (lit ''Artist A'')),
          (lit ''release_name'', VStr (lit ''Album A''))])]) @ [10])"
proof -
  have "encodable (concat (listen_texts (VDict
     [(lit ''listened_at'', VInt 1000),
      (lit ''track_metadata'', VDict
         [(lit ''track_name'', VStr (lit ''Song A'')),
          (lit ''artist_name'', VStr (lit ''Artist A'')),
          (lit ''release_name'', VStr (lit ''Album A''))])])))"
    by (simp add: listen_texts_def dict_get_def encodable_def surrogate_def)
  with listen_line_encodable [OF song_a_listen [unfolded song_a_def], of str]
  show ?thesis by (simp only:)
qed

lemma round_trip_loop:
  "write_loop str (flatten_tracks round_trip_payload) [] 0 =
     (None,
      lit ''{'' @ quoted ''listened_at'' @ lit '': 1000, '' @ quoted ''track_metadata'' @
      lit '': {'' @ quoted ''track_name'' @ lit '': '' @ quoted ''Song A'' @ lit '', '' @
      quoted ''artist_name'' @ lit '': '' @ quoted ''Artist A'' @ lit '', '' @
      quoted ''release_name'' @ lit '': '' @ quoted ''Album A'' @ lit ''}}'' @ [10],
      1)"
proof -
  note enc = song_a_line_encodable [of str]
  show ?thesis
    unfolding flatten_round_trip
    by (simp only: write_loop.simps song_a_listen song_b_skipped sum.case option.case
          Let_def enc if_True)
      (simp only: song_a_line, simp)
qed

lemma round_trip_parses: "json_load_example round_trip_document = Some round_trip_payload"
  by (simp add: json_load_example_def)

lemma round_trip_input: "files round_trip_world INPUT_FILE = Some (Text round_trip_document)"
  by (simp add: round_trip_world_def)

lemma accent_flatten: "flatten_tracks accent_payload = [accent_track]"
  by (simp add: flatten_tracks_def accent_payload_def accent_track_def)

lemma accent_listen:
  "track_to_listen str accent_track = Inr (Some (VDict
     [(lit ''listened_at'', VInt 1000),
      (lit ''track_metadata'', VDict
         [(lit ''track_name'', VStr (lit ''Caf'' @ [233, 10])),
          (lit ''artist_name'', VStr (lit ''Bj'' @ [246] @ lit ''rk''))])]))"
  unfolding accent_track_def by code_simp

lemma accent_line:
  "json_dumps str (VDict
     [(lit ''listened_at'', VInt 1000),
      (lit ''track_metadata'', VDict
         [(lit ''track_name'', VStr (lit ''Caf'' @ [233, 10])),
          (lit ''artist_name'', VStr (lit ''Bj'' @ [246] @ lit ''rk''))])]) =
   lit ''{'' @ quoted ''listened_at'' @ lit '': 1000, '' @ quoted ''track_metadata'' @
   lit '': {'' @ quoted ''track_name'' @ lit '': '' @ [34] @ lit ''Caf'' @ [233, 92, 110, 34] @
   lit '', '' @ quoted ''artist_name'' @ lit '': '' @ [34] @ lit ''Bj'' @ [246] @ lit ''rk'' @
   [34] @ lit ''}}''"
  by code_simp

lemma accent_parses: "json_load_example accent_document = Some accent_payload"
  by (simp add: json_load_example_def round_trip_document_def accent_document_def)

lemma accent_input: "files accent_world INPUT_FILE = Some (Text accent_document)"
  by (simp add: accent_world_def)

lemma surrogate_flatten: "flatten_tracks surrogate_payload = [song_a, surrogate_track]"
  by (simp add: flatten_tracks_def surrogate_payload_def song_a_def surrogate_track_def)

lemma surrogate_listen:
  "track_to_listen str surrogate_track = Inr (Some (VDict
     [(lit ''listened_at'', VInt 3000),
      (lit ''track_metadata'', VDict
         [(lit ''track_name'', VStr [0xD800]),
          (lit ''artist_name'', VStr (lit ''Artist E''))])]))"
proof -
  have uts: "py_int (VStr (lit ''3000'')) = Inr 3000"
    by code_simp
  have "track_to_listen str surrogate_track = Inr (Some (VDict
     [(lit ''listened_at'', VInt 3000),
      (lit ''track_metadata'', VDict
         ([(lit ''track_name'', VStr [0xD800]),
          (lit ''artist_name'', VStr (lit ''Artist E''))] @ []))]))"
    unfolding surrogate_track_def
    by (rule eligible_track_converts [where date = "[(lit ''uts'', VStr (lit ''3000''))]"
          and uts = "VStr (lit ''3000'')", OF _ _ _ uts, THEN trans])
       (simp_all add: dict_get_def)
  then show ?thesis by simp
qed

lemma surrogate_loop:
  "write_loop str (flatten_tracks surrogate_payload) [] 0 =
     (Some UnicodeEncodeError,
      lit ''{'' @ quoted ''listened_at'' @ lit '': 1000, '' @ quoted ''track_metadata'' @
      lit '': {'' @ quoted ''track_name'' @ lit '': '' @ quoted ''Song A'' @ lit '', '' @
      quoted ''artist_name'' @ lit '': '' @ quoted ''Artist A'' @ lit '', '' @
      quoted ''release_name'' @ lit '': '' @ quoted ''Album A'' @ lit ''}}'' @ [10],
      1)"
proof -
  note enc = song_a_line_encodable [of str]
  have texts: "\<not> encodable (concat (listen_texts (VDict
     [(lit ''listened_at'', VInt 3000),
      (lit ''track_metadata'', VDict
         [(lit ''track_name'', VStr [0xD800]),
          (lit ''artist_name'', VStr (lit ''Artist E''))])])))"
    by (simp add: listen_texts_def dict_get_def encodable_def surrogate_def)
  have refused: "\<not> encodable (json_dumps str (VDict
     [(lit ''listened_at'', VInt 3000),
      (lit ''track_metadata'', VDict
         [(lit ''track_name'', VStr [0xD800]),
          (lit ''artist_name'', VStr (lit ''Artist E''))])]) @ [10])"
    unfolding listen_line_encodable [OF surrogate_listen [unfolded surrogate_track_def]]
    by (rule texts)
  show ?thesis
    unfolding surrogate_flatten
    by (simp only: write_loop.simps song_a_listen surrogate_listen sum.case option.case
          Let_def enc refused if_True if_False)
      (simp only: song_a_line, simp)
qed

lemma surrogate_parses: "json_load_example surrogate_document = Some surrogate_payload"
  by (simp add: json_load_example_def round_trip_document_def accent_document_def
      surrogate_document_def)

lemma surrogate_input: "files surrogate_world INPUT_FILE = Some (Text surrogate_document)"
  by (simp add: surrogate_world_def)

lemma float_1000_9_int: "int_of_float float_1000_9 = 1000"
  unfolding float_1000_9_def by code_simp

lemma boolean_flag_without_attr:
  "track_to_listen str (VDict (AList.delete (lit ''@attr'') boolean_flag_track)) =
     Inr (Some (VDict
       [(lit ''listened_at'', VInt 2000),
        (lit ''track_metadata'', VDict
           [(lit ''track_name'', VStr (lit ''Song B'')),
            (lit ''artist_name'', VStr (lit ''Artist B''))])]))"
  unfolding boolean_flag_track_def by code_simp

section \<open>Properties from the specification\<close>

text \<open>
  Claim C1. Every listen that the converter returns is a dict of exactly two entries:
  \<^verbatim>\<open>listened_at\<close>, the integer that \<^verbatim>\<open>int(date.uts)\<close> gives, and \<^verbatim>\<open>track_metadata\<close>, a
  dict of \<^verbatim>\<open>track_name\<close> and \<^verbatim>\<open>artist_name\<close>, both non-empty text got by \<^verbatim>\<open>get_text\<close>,
  followed by \<^verbatim>\<open>release_name\<close> exactly when \<^verbatim>\<open>get_text\<close> of the album is a non-empty
  text. The track it comes from is a dict that passes every eligibility check: it is not
  marked as now playing, it has a \<^verbatim>\<open>date\<close> dict with a \<^verbatim>\<open>uts\<close> entry, and that entry
  converts to an integer.
\<close>

theorem listen_record_fields:
  assumes "track_to_listen str t = Inr (Some listen)"
  shows "\<exists>d date uts n tn an.
      t = VDict d \<and>
      \<not> (\<exists>a. map_of d (lit ''@attr'') = Some (VDict a) \<and>
               map_of a (lit ''nowplaying'') = Some (VStr (lit ''true''))) \<and>
      map_of d (lit ''date'') = Some (VDict date) \<and>
      map_of date (lit ''uts'') = Some uts \<and> py_int uts = Inr n \<and>
      get_text str (dict_get d (lit ''name'')) = Some tn \<and> tn \<noteq> [] \<and>
      get_text str (dict_get d (lit ''artist'')) = Some an \<and> an \<noteq> [] \<and>
      listen = VDict
        [(lit ''listened_at'', VInt n),
         (lit ''track_metadata'', VDict
            ([(lit ''track_name'', VStr tn), (lit ''artist_name'', VStr an)] @
             (case get_text str (dict_get d (lit ''album'')) of
                None \<Rightarrow> []
              | Some al \<Rightarrow> if al = [] then [] else [(lit ''release_name'', VStr al)])))]"
proof -
  from assms track_to_listen_dict obtain d where t: "t = VDict d" by blast
  with assms have "track_to_listen str (VDict d) = Inr (Some listen)" by simp
  from track_to_listen_Some [OF this] t show ?thesis by blast
qed

theorem listen_record_fields_witness:
  "track_to_listen str_of_atom song_a = Inr (Some (VDict
     [(lit ''listened_at'', VInt 1000),
      (lit ''track_metadata'', VDict
         [(lit ''track_name'', VStr (lit ''Song A'')),
          (lit ''artist_name'', VStr (lit ''Artist A'')),
          (lit ''release_name'', VStr (lit ''Album A''))])])) \<and>
   (\<exists>d date uts n tn an.
      song_a = VDict d \<and>
      \<not> (\<exists>a. map_of d (lit ''@attr'') = Some (VDict a) \<and>
               map_of a (lit ''nowplaying'') = Some (VStr (lit ''true''))) \<and>
      map_of d (lit ''date'') = Some (VDict date) \<and>
      map_of date (lit ''uts'') = Some uts \<and> py_int uts = Inr n \<and>
      get_text str_of_atom (dict_get d (lit ''name'')) = Some tn \<and> tn \<noteq> [] \<and>
      get_text str_of_atom (dict_get d (lit ''artist'')) = Some an \<and> an \<noteq> [] \<and>
      VDict
        [(lit ''listened_at'', VInt 1000),
         (lit ''track_metadata'', VDict
            [(lit ''track_name'', VStr (lit ''Song A'')),
             (lit ''artist_name'', VStr (lit ''Artist A'')),
             (lit ''release_name'', VStr (lit ''Album A''))])] =
      VDict
        [(lit ''listened_at'', VInt n),
         (lit ''track_metadata'', VDict
            ([(lit ''track_name'', VStr tn), (lit ''artist_name'', VStr an)] @
             (case get_text str_of_atom (dict_get d (lit ''album'')) of
                None \<Rightarrow> []
              | Some al \<Rightarrow> if al = [] then [] else [(lit ''release_name'', VStr al)])))])"
proof -
  have h: "track_to_listen str_of_atom song_a = Inr (Some (VDict
     [(lit ''listened_at'', VInt 1000),
      (lit ''track_metadata'', VDict
         [(lit ''track_name'', VStr (lit ''Song A'')),
          (lit ''artist_name'', VStr (lit ''Artist A'')),
          (lit ''release_name'', VStr (lit ''Album A''))])]))"
    by (rule song_a_listen)
  show ?thesis
    using h listen_record_fields [OF h] by (rule conjI)
qed

text \<open>
  Claim C2 says that the converter skips whenever \<^verbatim>\<open>date.uts\<close> cannot be read as an
  integer. The code does not: on the infinite float, which \<^verbatim>\<open>int\<close> refuses with
  OverflowError, the exception leaves the converter, because the \<^verbatim>\<open>except\<close> clause names
  TypeError and ValueError only.
\<close>

theorem infinite_uts_raises:
  "py_int (VFloat PosInf) = Inl OverflowError \<and>
   track_to_listen str (VDict infinite_uts_track) = Inl OverflowError"
  by (simp add: infinite_uts_track_def dict_get_def)

text \<open>
  Claim C3. A track whose \<^verbatim>\<open>@attr\<close> is a dict with \<^verbatim>\<open>nowplaying\<close> equal to the text
  \<^verbatim>\<open>true\<close> is skipped, whatever else it holds. Any other \<^verbatim>\<open>nowplaying\<close> value, the
  boolean \<^verbatim>\<open>True\<close> among them, has no effect: the track is converted as it would be
  without \<^verbatim>\<open>@attr\<close>.
\<close>

theorem now_playing_text_skips:
  assumes "map_of t (lit ''@attr'') = Some (VDict a)"
  shows "(map_of a (lit ''nowplaying'') = Some (VStr (lit ''true'')) \<longrightarrow>
            track_to_listen str (VDict t) = Inr None) \<and>
         (map_of a (lit ''nowplaying'') \<noteq> Some (VStr (lit ''true'')) \<longrightarrow>
            track_to_listen str (VDict t) =
              track_to_listen str (VDict (AList.delete (lit ''@attr'') t)))"
proof (intro conjI impI)
  assume "map_of a (lit ''nowplaying'') = Some (VStr (lit ''true''))"
  with assms show "track_to_listen str (VDict t) = Inr None"
    by (simp add: dict_get_def)
next
  let ?t' = "AList.delete (lit ''@attr'') t"
  assume other: "map_of a (lit ''nowplaying'') \<noteq> Some (VStr (lit ''true''))"
  have attr: "dict_get t (lit ''@attr'') = VDict a"
    using assms by (simp add: dict_get_def)
  have np: "dict_get a (lit ''nowplaying'') \<noteq> VStr (lit ''true'')"
    using other by (auto simp: dict_get_def split: option.splits)
  have attr': "dict_get ?t' (lit ''@attr'') = VNone"
    by (rule dict_get_delete_same)
  have same: "dict_get ?t' (lit ''date'') = dict_get t (lit ''date'')"
    "dict_get ?t' (lit ''name'') = dict_get t (lit ''name'')"
    "dict_get ?t' (lit ''artist'') = dict_get t (lit ''artist'')"
    "dict_get ?t' (lit ''album'') = dict_get t (lit ''album'')"
    by (simp_all add: dict_get_delete)
  show "track_to_listen str (VDict t) = track_to_listen str (VDict ?t')"
    unfolding track_to_listen.simps attr attr' same Let_def
    using np by simp
qed

theorem now_playing_text_skips_witness:
  "track_to_listen str_of_atom song_b = Inr None \<and>
   track_to_listen str_of_atom (VDict boolean_flag_track) =
     Inr (Some (VDict
       [(lit ''listened_at'', VInt 2000),
        (lit ''track_metadata'', VDict
           [(lit ''track_name'', VStr (lit ''Song B'')),
            (lit ''artist_name'', VStr (lit ''Artist B''))])]))"
proof
  let ?b = "[(lit ''name'', VStr (lit ''Song B'')),
      (lit ''artist'', VStr (lit ''Artist B'')),
      (lit ''date'', VDict [(lit ''uts'', VStr (lit ''2000''))]),
      (lit ''@attr'', VDict [(lit ''nowplaying'', VStr (lit ''true''))])]"
  have h: "map_of ?b (lit ''@attr'') = Some (VDict [(lit ''nowplaying'', VStr (lit ''true''))])"
    by simp
  have flag: "map_of [(lit ''nowplaying'', VStr (lit ''true''))] (lit ''nowplaying'') =
      Some (VStr (lit ''true''))"
    by simp
  show "track_to_listen str_of_atom song_b = Inr None"
    unfolding song_b_def
    using now_playing_text_skips [OF h, of str_of_atom] flag by blast
next
  have h: "map_of boolean_flag_track (lit ''@attr'') =
      Some (VDict [(lit ''nowplaying'', VBool True)])"
    by (simp add: boolean_flag_track_def)
  have flag: "map_of [(lit ''nowplaying'', VBool True)] (lit ''nowplaying'') \<noteq>
      Some (VStr (lit ''true''))"
    by simp
  have "track_to_listen str_of_atom (VDict boolean_flag_track) =
        track_to_listen str_of_atom (VDict (AList.delete (lit ''@attr'') boolean_flag_track))"
    using now_playing_text_skips [OF h, of str_of_atom] flag by blast
  then show "track_to_listen str_of_atom (VDict boolean_flag_track) =
     Inr (Some (VDict
       [(lit ''listened_at'', VInt 2000),
        (lit ''track_metadata'', VDict
           [(lit ''track_name'', VStr (lit ''Song B'')),
            (lit ''artist_name'', VStr (lit ''Artist B''))])]))"
    by (simp only: boolean_flag_without_attr)
qed

text \<open>
  Claim C4. On the payload of the round-trip scenario the normaliser yields the two
  tracks, the converter turns Song A into the listen of the scenario and skips Song B,
  and the loop writes that one listen as one line and counts 1. A run of the program on
  the document writes this line to the JSONL file and reports the count 1.
\<close>

theorem round_trip_scenario:
  "flatten_tracks round_trip_payload = [song_a, song_b] \<and>
   track_to_listen str song_a = Inr (Some (VDict
     [(lit ''listened_at'', VInt 1000),
      (lit ''track_metadata'', VDict
         [(lit ''track_name'', VStr (lit ''Song A'')),
          (lit ''artist_name'', VStr (lit ''Artist A'')),
          (lit ''release_name'', VStr (lit ''Album A''))])])) \<and>
   track_to_listen str song_b = Inr None \<and>
   write_loop str (flatten_tracks round_trip_payload) [] 0 =
     (None,
      lit ''{'' @ quoted ''listened_at'' @ lit '': 1000, '' @ quoted ''track_metadata'' @
      lit '': {'' @ quoted ''track_name'' @ lit '': '' @ quoted ''Song A'' @ lit '', '' @
      quoted ''artist_name'' @ lit '': '' @ quoted ''Artist A'' @ lit '', '' @
      quoted ''release_name'' @ lit '': '' @ quoted ''Album A'' @ lit ''}}'' @ [10],
      1) \<and>
   accepted_listens str (flatten_tracks round_trip_payload) =
     [VDict
       [(lit ''listened_at'', VInt 1000),
        (lit ''track_metadata'', VDict
           [(lit ''track_name'', VStr (lit ''Song A'')),
            (lit ''artist_name'', VStr (lit ''Artist A'')),
            (lit ''release_name'', VStr (lit ''Album A''))])]] \<and>
   (\<exists>w'. main str json_load_example round_trip_world = (None, w') \<and>
      files w' OUTPUT_JSONL = Some (Text
        (lit ''{'' @ quoted ''listened_at'' @ lit '': 1000, '' @ quoted ''track_metadata'' @
         lit '': {'' @ quoted ''track_name'' @ lit '': '' @ quoted ''Song A'' @ lit '', '' @
         quoted ''artist_name'' @ lit '': '' @ quoted ''Artist A'' @ lit '', '' @
         quoted ''release_name'' @ lit '': '' @ quoted ''Album A'' @ lit ''}}'' @ [10])) \<and>
      stdout w' = lit ''Listens written: 1'' @ [10] @
                  lit ''Created: listenbrainz_import.zip'' @ [10])"
proof -
  have acc: "accepted_listens str (flatten_tracks round_trip_payload) =
     [VDict
       [(lit ''listened_at'', VInt 1000),
        (lit ''track_metadata'', VDict
           [(lit ''track_name'', VStr (lit ''Song A'')),
            (lit ''artist_name'', VStr (lit ''Artist A'')),
            (lit ''release_name'', VStr (lit ''Album A''))])]]"
    unfolding flatten_round_trip accepted_listens_def
    by (simp only: map_filter_simps song_a_listen song_b_skipped sum.case option.case)
  have one: "repr_int (int 1) = lit ''1''" by code_simp
  from main_returns [where json_load = json_load_example and s = round_trip_document
      and str = str, OF round_trip_input round_trip_parses round_trip_loop]
  obtain w' where w': "main str json_load_example round_trip_world = (None, w')"
    "files w' OUTPUT_JSONL = Some (Text
        (lit ''{'' @ quoted ''listened_at'' @ lit '': 1000, '' @ quoted ''track_metadata'' @
         lit '': {'' @ quoted ''track_name'' @ lit '': '' @ quoted ''Song A'' @ lit '', '' @
         quoted ''artist_name'' @ lit '': '' @ quoted ''Artist A'' @ lit '', '' @
         quoted ''release_name'' @ lit '': '' @ quoted ''Album A'' @ lit ''}}'' @ [10]))"
    "stdout w' = stdout round_trip_world @ lit ''Listens written: '' @ repr_int (int 1) @ [10] @
                    lit ''Created: '' @ OUTPUT_ZIP @ [10]"
    by blast
  from w'(3) have out: "stdout w' = lit ''Listens written: 1'' @ [10] @
                  lit ''Created: listenbrainz_import.zip'' @ [10]"
    unfolding one by (simp add: round_trip_world_def OUTPUT_ZIP_def)
  from w'(1,2) out have run: "\<exists>w'. main str json_load_example round_trip_world = (None, w') \<and>
      files w' OUTPUT_JSONL = Some (Text
        (lit ''{'' @ quoted ''listened_at'' @ lit '': 1000, '' @ quoted ''track_metadata'' @
         lit '': {'' @ quoted ''track_name'' @ lit '': '' @ quoted ''Song A'' @ lit '', '' @
         quoted ''artist_name'' @ lit '': '' @ quoted ''Artist A'' @ lit '', '' @
         quoted ''release_name'' @ lit '': '' @ quoted ''Album A'' @ lit ''}}'' @ [10])) \<and>
      stdout w' = lit ''Listens written: 1'' @ [10] @
                  lit ''Created: listenbrainz_import.zip'' @ [10]"
    by blast
  show ?thesis
    using flatten_round_trip song_a_listen [of str] song_b_skipped [of str]
      round_trip_loop [of str] acc run
    by (intro conjI)
qed

theorem round_trip_scenario_witness:
  "write_loop str_of_atom (flatten_tracks round_trip_payload) [] 0 =
     (None,
      lit ''{'' @ quoted ''listened_at'' @ lit '': 1000, '' @ quoted ''track_metadata'' @
      lit '': {'' @ quoted ''track_name'' @ lit '': '' @ quoted ''Song A'' @ lit '', '' @
      quoted ''artist_name'' @ lit '': '' @ quoted ''Artist A'' @ lit '', '' @
      quoted ''release_name'' @ lit '': '' @ quoted ''Album A'' @ lit ''}}'' @ [10],
      1)"
  using round_trip_scenario [of str_of_atom] by blast



text \<open>
  Claim C6 says that the serialiser writes one line for every accepted listen and
  returns their number. A listen whose text holds a surrogate code point cannot be
  written: on the payload of Song A and the track named U+D800 the converter accepts both
  tracks, the first line is written, and the write of the second raises
  UnicodeEncodeError.
\<close>

theorem surrogate_line_not_written:
  "files surrogate_world INPUT_FILE = Some (Text surrogate_document) \<and>
   json_load_example surrogate_document = Some surrogate_payload \<and>
   flatten_tracks surrogate_payload = [song_a, surrogate_track] \<and>
   track_to_listen str_of_atom song_a = Inr (Some (VDict
     [(lit ''listened_at'', VInt 1000),
      (lit ''track_metadata'', VDict
         [(lit ''track_name'', VStr (lit ''Song A'')),
          (lit ''artist_name'', VStr (lit ''Artist A'')),
          (lit ''release_name'', VStr (lit ''Album A''))])])) \<and>
   track_to_listen str_of_atom surrogate_track = Inr (Some (VDict
     [(lit ''listened_at'', VInt 3000),
      (lit ''track_metadata'', VDict
         [(lit ''track_name'', VStr [0xD800]),
          (lit ''artist_name'', VStr (lit ''Artist E''))])])) \<and>
   write_listens_jsonl str_of_atom json_load_example INPUT_FILE OUTPUT_JSONL surrogate_world =
     (Inl UnicodeEncodeError,
      surrogate_world\<lparr>files := (files surrogate_world)(OUTPUT_JSONL \<mapsto> Text
        (lit ''{'' @ quoted ''listened_at'' @ lit '': 1000, '' @ quoted ''track_metadata'' @
         lit '': {'' @ quoted ''track_name'' @ lit '': '' @ quoted ''Song A'' @ lit '', '' @
         quoted ''artist_name'' @ lit '': '' @ quoted ''Artist A'' @ lit '', '' @
         quoted ''release_name'' @ lit '': '' @ quoted ''Album A'' @ lit ''}}'' @ [10]))\<rparr>)"
proof -
  have "write_listens_jsonl str_of_atom json_load_example INPUT_FILE OUTPUT_JSONL surrogate_world =
     (Inl UnicodeEncodeError,
      surrogate_world\<lparr>files := (files surrogate_world)(OUTPUT_JSONL \<mapsto> Text
        (lit ''{'' @ quoted ''listened_at'' @ lit '': 1000, '' @ quoted ''track_metadata'' @
         lit '': {'' @ quoted ''track_name'' @ lit '': '' @ quoted ''Song A'' @ lit '', '' @
         quoted ''artist_name'' @ lit '': '' @ quoted ''Artist A'' @ lit '', '' @
         quoted ''release_name'' @ lit '': '' @ quoted ''Album A'' @ lit ''}}'' @ [10]))\<rparr>)"
    by (simp add: write_listens_jsonl_def surrogate_input surrogate_parses surrogate_loop)
  with surrogate_input surrogate_parses surrogate_flatten song_a_listen [of str_of_atom]
    surrogate_listen [of str_of_atom]
  show ?thesis by (intro conjI)
qed

text \<open>
  Claim C6, amended. When the input parses, the converter returns on every track and no
  text value of an accepted listen holds a surrogate code point, the serialiser writes,
  for each accepted listen in the order of the tracks, its JSON text followed by one line
  feed, and returns the number of these lines. The JSON text of a listen holds no line
  feed, so each line is one listen; and the code points from 128 on in a line are those
  of the listen's text values, in their order: text outside ASCII is written as it is.
\<close>

theorem jsonl_one_listen_per_line:
  assumes "files w input_path = Some (Text s)" and "json_load s = Some raw"
    and "\<forall>t\<in>set (flatten_tracks raw). \<exists>r. track_to_listen str t = Inr r"
    and "\<forall>l\<in>set (accepted_listens str (flatten_tracks raw)). encodable (concat (listen_texts l))"
  shows "write_listens_jsonl str json_load input_path output_path w =
      (Inr (length (accepted_listens str (flatten_tracks raw))),
       w\<lparr>files := (files w)(output_path \<mapsto>
           Text (concat (map (\<lambda>l. json_dumps str l @ [10])
                   (accepted_listens str (flatten_tracks raw)))))\<rparr>) \<and>
    (\<forall>l\<in>set (accepted_listens str (flatten_tracks raw)).
       10 \<notin> set (json_dumps str l) \<and>
       filter (\<lambda>c. 128 \<le> c) (json_dumps str l) =
         filter (\<lambda>c. 128 \<le> c) (concat (listen_texts l)))"
proof
  show "write_listens_jsonl str json_load input_path output_path w =
      (Inr (length (accepted_listens str (flatten_tracks raw))),
       w\<lparr>files := (files w)(output_path \<mapsto>
           Text (concat (map (\<lambda>l. json_dumps str l @ [10])
                   (accepted_listens str (flatten_tracks raw)))))\<rparr>)"
    by (rule write_listens_jsonl_returns [where json_load = json_load and s = s, OF assms])
next
  show "\<forall>l\<in>set (accepted_listens str (flatten_tracks raw)).
       10 \<notin> set (json_dumps str l) \<and>
       filter (\<lambda>c. 128 \<le> c) (json_dumps str l) =
         filter (\<lambda>c. 128 \<le> c) (concat (listen_texts l))"
  proof
    fix l
    assume "l \<in> set (accepted_listens str (flatten_tracks raw))"
    from accepted_listens_origin [OF this]
    obtain d where "track_to_listen str (VDict d) = Inr (Some l)" by blast
    then show "10 \<notin> set (json_dumps str l) \<and>
       filter (\<lambda>c. 128 \<le> c) (json_dumps str l) =
         filter (\<lambda>c. 128 \<le> c) (concat (listen_texts l))"
      by (rule listen_line)
  qed
qed

theorem jsonl_one_listen_per_line_witness:
  "write_listens_jsonl str_of_atom json_load_example INPUT_FILE OUTPUT_JSONL accent_world =
     (Inr 1,
      accent_world\<lparr>files := (files accent_world)(OUTPUT_JSONL \<mapsto> Text
        (lit ''{'' @ quoted ''listened_at'' @ lit '': 1000, '' @ quoted ''track_metadata'' @
         lit '': {'' @ quoted ''track_name'' @ lit '': '' @ [34] @ lit ''Caf'' @
         [233, 92, 110, 34] @ lit '', '' @ quoted ''artist_name'' @ lit '': '' @ [34] @
         lit ''Bj'' @ [246] @ lit ''rk'' @ [34] @ lit ''}}'' @ [10]))\<rparr>)"
proof -
  have conv: "\<forall>t\<in>set (flatten_tracks accent_payload).
      \<exists>r. track_to_listen str_of_atom t = Inr r"
    unfolding accent_flatten by (simp only: list.set ball_simps accent_listen) blast
  have acc: "accepted_listens str_of_atom (flatten_tracks accent_payload) =
     [VDict
       [(lit ''listened_at'', VInt 1000),
        (lit ''track_metadata'', VDict
           [(lit ''track_name'', VStr (lit ''Caf'' @ [233, 10])),
            (lit ''artist_name'', VStr (lit ''Bj'' @ [246] @ lit ''rk''))])]]"
    unfolding accent_flatten accepted_listens_def
    by (simp only: map_filter_simps accent_listen sum.case option.case)
  let ?A = "accepted_listens str_of_atom (flatten_tracks accent_payload)"
  have enc: "\<forall>l\<in>set ?A. encodable (concat (listen_texts l))"
    unfolding acc by (simp add: listen_texts_def dict_get_def encodable_def surrogate_def)
  from jsonl_one_listen_per_line [where json_load = json_load_example and s = accent_document,
      OF accent_input accent_parses conv enc, of OUTPUT_JSONL]
  have run: "write_listens_jsonl str_of_atom json_load_example INPUT_FILE OUTPUT_JSONL accent_world =
      (Inr (length ?A),
       accent_world\<lparr>files := (files accent_world)(OUTPUT_JSONL \<mapsto>
           Text (concat (map (\<lambda>l. json_dumps str_of_atom l @ [10]) ?A)))\<rparr>)"
    by blast
  have len: "length ?A = 1"
    by (simp only: acc) simp
  have blob: "concat (map (\<lambda>l. json_dumps str_of_atom l @ [10]) ?A) =
        lit ''{'' @ quoted ''listened_at'' @ lit '': 1000, '' @ quoted ''track_metadata'' @
         lit '': {'' @ quoted ''track_name'' @ lit '': '' @ [34] @ lit ''Caf'' @
         [233, 92, 110, 34] @ lit '', '' @ quoted ''artist_name'' @ lit '': '' @ [34] @
         lit ''Bj'' @ [246] @ lit ''rk'' @ [34] @ lit ''}}'' @ [10]"
  proof -
    have "concat (map (\<lambda>l. json_dumps str_of_atom l @ [10]) ?A) =
        json_dumps str_of_atom (VDict
       [(lit ''listened_at'', VInt 1000),
        (lit ''track_metadata'', VDict
           [(lit ''track_name'', VStr (lit ''Caf'' @ [233, 10])),
            (lit ''artist_name'', VStr (lit ''Bj'' @ [246] @ lit ''rk''))])]) @ [10]"
      unfolding acc by simp
    then show ?thesis
      by (simp only: accent_line) simp
  qed
  show ?thesis
    by (simp only: run len blob)
qed

text \<open>
  Claim C7. A payload whose \<^verbatim>\<open>track\<close> entry is a single dict is normalised like the
  payload whose \<^verbatim>\<open>track\<close> entry is the list of that one dict, both when \<^verbatim>\<open>track\<close> is the
  only key and when the payload has other entries. \<^verbatim>\<open>_ensure_list\<close> maps \<^verbatim>\<open>None\<close> to the
  empty list, a list to itself and every other value to the list of that one value.
\<close>

theorem single_track_as_list:
  "flatten_tracks (VDict [(lit ''track'', VDict m)]) =
     flatten_tracks (VDict [(lit ''track'', VList [VDict m])]) \<and>
   flatten_tracks (VDict [(lit ''track'', VDict m)]) = [VDict m] \<and>
   flatten_tracks (VDict (AList.update (lit ''track'') (VDict m) d)) =
     flatten_tracks (VDict (AList.update (lit ''track'') (VList [VDict m]) d)) \<and>
   ensure_list VNone = [] \<and>
   ensure_list (VList xs) = xs \<and>
   ensure_list (VBool b) = [VBool b] \<and>
   ensure_list (VInt n) = [VInt n] \<and>
   ensure_list (VFloat f) = [VFloat f] \<and>
   ensure_list (VStr s) = [VStr s] \<and>
   ensure_list (VDict m) = [VDict m]"
proof -
  have "flatten_tracks (VDict (AList.update (lit ''track'') (VDict m) d)) =
     flatten_tracks (VDict (AList.update (lit ''track'') (VList [VDict m]) d))"
    by (simp add: flatten_tracks_def dict_get_def update_conv' split: option.splits pyval.splits)
  then show ?thesis
    by (simp add: flatten_tracks_def dict_get_def)
qed

theorem single_track_as_list_witness:
  "flatten_tracks (VDict [(lit ''track'', song_a)]) = [song_a] \<and>
   flatten_tracks (VDict [(lit ''track'', VList [song_a])]) = [song_a]"
proof -
  let ?m = "[(lit ''name'', VStr (lit ''Song A'')),
      (lit ''artist'', VStr (lit ''Artist A'')),
      (lit ''album'', VDict [(lit ''#text'', VStr (lit ''Album A''))]),
      (lit ''date'', VDict [(lit ''uts'', VStr (lit ''1000''))])]"
  from single_track_as_list [of ?m]
  have same: "flatten_tracks (VDict [(lit ''track'', VDict ?m)]) =
      flatten_tracks (VDict [(lit ''track'', VList [VDict ?m])])"
    and one: "flatten_tracks (VDict [(lit ''track'', VDict ?m)]) = [VDict ?m]"
    by blast+
  show ?thesis
    unfolding song_a_def by (simp only: same [symmetric] one)
qed

text \<open>
  Claim C8 says that the normaliser and the converter never raise. The normaliser does
  not; the converter does, on the track whose \<^verbatim>\<open>date.uts\<close> is the infinite float that
  \<^verbatim>\<open>1e999\<close> parses to: the normaliser passes the track on, and the loop ends with
  OverflowError before anything is written.
\<close>

theorem pipeline_raises_on_infinite_uts:
  "flatten_tracks (VList [VDict infinite_uts_track]) = [VDict infinite_uts_track] \<and>
   write_loop str (flatten_tracks (VList [VDict infinite_uts_track])) [] 0 =
     (Some OverflowError, [], 0)"
  by (simp add: flatten_tracks_def infinite_uts_track_def dict_get_def)

text \<open>
  Claim C9. A second run of the program, started in the state the first run left, ends
  as the first did and leaves the same text in the JSONL file: the output is opened for
  writing, not for appending, and no run changes the input.
\<close>

theorem second_run_same_jsonl:
  "fst (main str json_load (snd (main str json_load w))) = fst (main str json_load w) \<and>
   files (snd (main str json_load (snd (main str json_load w)))) OUTPUT_JSONL =
     files (snd (main str json_load w)) OUTPUT_JSONL"
  by (rule main_twice)

theorem second_run_same_jsonl_witness:
  "fst (main str_of_atom json_load_example
          (snd (main str_of_atom json_load_example round_trip_world))) = None \<and>
   files (snd (main str_of_atom json_load_example
          (snd (main str_of_atom json_load_example round_trip_world)))) OUTPUT_JSONL =
     Some (Text
        (lit ''{'' @ quoted ''listened_at'' @ lit '': 1000, '' @ quoted ''track_metadata'' @
         lit '': {'' @ quoted ''track_name'' @ lit '': '' @ quoted ''Song A'' @ lit '', '' @
         quoted ''artist_name'' @ lit '': '' @ quoted ''Artist A'' @ lit '', '' @
         quoted ''release_name'' @ lit '': '' @ quoted ''Album A'' @ lit ''}}'' @ [10]))"
proof -
  from main_returns [where json_load = json_load_example and s = round_trip_document
      and str = str_of_atom, OF round_trip_input round_trip_parses round_trip_loop]
  obtain w' where w': "main str_of_atom json_load_example round_trip_world = (None, w')"
    "files w' OUTPUT_JSONL = Some (Text
        (lit ''{'' @ quoted ''listened_at'' @ lit '': 1000, '' @ quoted ''track_metadata'' @
         lit '': {'' @ quoted ''track_name'' @ lit '': '' @ quoted ''Song A'' @ lit '', '' @
         quoted ''artist_name'' @ lit '': '' @ quoted ''Artist A'' @ lit '', '' @
         quoted ''release_name'' @ lit '': '' @ quoted ''Album A'' @ lit ''}}'' @ [10]))"
    by blast
  from second_run_same_jsonl [of str_of_atom json_load_example round_trip_world] w'
  show ?thesis by (simp only: fst_conv snd_conv) 
qed

text \<open>
  Claim C10 says that every track whose \<^verbatim>\<open>date.uts\<close> is a number with a fraction, and
  whose name and artist are non-empty text, becomes a listen. A track marked as now
  playing is skipped before its date is read.
\<close>

theorem now_playing_float_uts_skipped:
  "map_of now_playing_float_track (lit ''date'') =
     Some (VDict [(lit ''uts'', VFloat (Finite float_1000_9))]) \<and>
   get_text str_of_atom (dict_get now_playing_float_track (lit ''name'')) =
     Some (lit ''Song C'') \<and>
   get_text str_of_atom (dict_get now_playing_float_track (lit ''artist'')) =
     Some (lit ''Artist C'') \<and>
   track_to_listen str_of_atom (VDict now_playing_float_track) = Inr None"
  by (simp add: now_playing_float_track_def float_uts_track_def dict_get_def)

text \<open>
  Claim C10, amended. A track that is not marked as now playing, whose \<^verbatim>\<open>date.uts\<close> is
  a finite float and whose name and artist are non-empty text, becomes a listen whose
  \<^verbatim>\<open>listened_at\<close> is the float cut off towards zero: the integer that is no larger in
  magnitude than the float and less than one away from it.
\<close>

theorem finite_float_uts_truncated:
  assumes "\<not> (\<exists>a. map_of t (lit ''@attr'') = Some (VDict a) \<and>
               map_of a (lit ''nowplaying'') = Some (VStr (lit ''true'')))"
    and "map_of t (lit ''date'') = Some (VDict date)"
    and "map_of date (lit ''uts'') = Some (VFloat (Finite q))"
    and "get_text str (dict_get t (lit ''name'')) = Some tn" and "tn \<noteq> []"
    and "get_text str (dict_get t (lit ''artist'')) = Some an" and "an \<noteq> []"
  shows "track_to_listen str (VDict t) =
      Inr (Some (VDict
        [(lit ''listened_at'', VInt (int_of_float q)),
         (lit ''track_metadata'', VDict
            ([(lit ''track_name'', VStr tn), (lit ''artist_name'', VStr an)] @
             (case get_text str (dict_get t (lit ''album'')) of
                None \<Rightarrow> []
              | Some al \<Rightarrow> if al = [] then [] else [(lit ''release_name'', VStr al)])))])) \<and>
    \<bar>of_int (int_of_float q)\<bar> \<le> \<bar>q\<bar> \<and> \<bar>q - of_int (int_of_float q)\<bar> < 1"
proof -
  have "py_int (VFloat (Finite q)) = Inr (int_of_float q)" by simp
  from eligible_track_converts [OF assms(1-3) this assms(4-7)] int_of_float_towards_zero [of q]
  show ?thesis by (rule conjI)
qed

theorem finite_float_uts_truncated_witness:
  "track_to_listen str_of_atom (VDict float_uts_track) =
      Inr (Some (VDict
        [(lit ''listened_at'', VInt 1000),
         (lit ''track_metadata'', VDict
            [(lit ''track_name'', VStr (lit ''Song C'')),
             (lit ''artist_name'', VStr (lit ''Artist C''))])]))"
proof -
  have h1: "\<not> (\<exists>a. map_of float_uts_track (lit ''@attr'') = Some (VDict a) \<and>
               map_of a (lit ''nowplaying'') = Some (VStr (lit ''true'')))"
    by (simp add: float_uts_track_def)
  have h2: "map_of float_uts_track (lit ''date'') =
      Some (VDict [(lit ''uts'', VFloat (Finite float_1000_9))])"
    by (simp add: float_uts_track_def)
  have h3: "map_of [(lit ''uts'', VFloat (Finite float_1000_9))] (lit ''uts'') =
      Some (VFloat (Finite float_1000_9))"
    by simp
  have h4: "get_text str_of_atom (dict_get float_uts_track (lit ''name'')) = Some (lit ''Song C'')"
    by (simp add: float_uts_track_def dict_get_def)
  have h5: "get_text str_of_atom (dict_get float_uts_track (lit ''artist'')) =
      Some (lit ''Artist C'')"
    by (simp add: float_uts_track_def dict_get_def)
  have h6: "get_text str_of_atom (dict_get float_uts_track (lit ''album'')) = None"
    by (simp add: float_uts_track_def dict_get_def)
  show ?thesis
    using finite_float_uts_truncated [OF h1 h2 h3 h4 _ h5] h6 float_1000_9_int by simp
qed

end
